theory Spec2Isabelle
  imports Main "HOL-Library.Multiset"
begin

section \<open>Study habit tracker: the data model of App.jsx\<close>

text \<open>
  The source documents its types in a comment:
  \<^verbatim>\<open>Habit: { id, title, freq: 'daily'|'every2days'|'custom', intervalDays: number,
           lastDoneDate?: 'YYYY-MM-DD', totalCompletions: number }\<close>
  \<^verbatim>\<open>UserDoc: { codeHash, points, xp, level, overallStreak, lastActiveDate, habits: Habit[] }\<close>

  Numbers are modelled as integers (every number the application stores is one: counters,
  multiples of ten, clamped intervals), a calendar date \<^verbatim>\<open>'YYYY-MM-DD'\<close> as the number
  of its day, and a field that may be \<^verbatim>\<open>null\<close> as an option.
\<close>

datatype date = Day (dayNumber: int)

datatype frequency = Daily | Every2Days | Custom

record habit =
  hid :: string
  title :: string
  freq :: frequency
  intervalDays :: int
  lastDoneDate :: "date option"
  totalCompletions :: int

record userdoc =
  codeHash :: string
  points :: int
  xp :: int
  level :: int
  overallStreak :: int
  lastActiveDate :: "date option"
  habits :: "habit list"

text \<open>An entry of the document \<^verbatim>\<open>leaderboard/global\<close>: \<^verbatim>\<open>{ name, points, streak, level }\<close>.\<close>

record player =
  pname :: string
  ppoints :: int
  pstreak :: int
  plevel :: int

text \<open>The form state \<^verbatim>\<open>newHabit\<close>. The field \<open>nh_intervalDays\<close> holds the value of
  \<^verbatim>\<open>Number(newHabit.intervalDays)\<close>, the conversion being the language's own: \<open>None\<close> is
  \<^verbatim>\<open>NaN\<close> (a non-numeric input).\<close>

record new_habit =
  nh_title :: string
  nh_freq :: frequency
  nh_intervalDays :: "int option"

text \<open>
  The state the handlers work on: the React state of the component (\<open>selectedName\<close>,
  \<open>code\<close>, \<open>codeHashState\<close>, \<open>userDoc\<close>, \<open>loading\<close>, \<open>newHabit\<close>) and the three Firestore
  documents or collections the handlers read and write (\<open>users\<close>, \<open>roster\<close>,
  \<open>leaderboard\<close>; a document that does not exist is \<open>None\<close>). \<open>userDoc\<close> is the snapshot
  \<^verbatim>\<open>{ name, ...s.data() }\<close> the live subscription pushes, a name with a user document.
\<close>

record state =
  selectedName :: string
  code :: string
  codeHashState :: string
  userDoc :: "(string \<times> userdoc) option"
  loading :: bool
  newHabit :: new_habit
  users :: "string \<rightharpoonup> userdoc"
  roster :: "string list option"
  leaderboard :: "player list option"

text \<open>How a handler ends: it runs to its end, it returns early through \<^verbatim>\<open>alert(msg)\<close>, or a
  Firestore call rejects (\<^verbatim>\<open>updateDoc\<close> on a document that does not exist).\<close>

datatype signal = Finished | Alert string | Rejected

section \<open>Utilities\<close>

text \<open>\<^verbatim>\<open>x || d\<close> on a number: zero is falsy.\<close>

definition num_or :: "int \<Rightarrow> int \<Rightarrow> int" where
  "num_or x d = (if x = 0 then d else x)"

text \<open>\<^verbatim>\<open>Math.round(n / d)\<close> for integers \<open>n\<close> and positive \<open>d\<close>: the nearest integer, halves
  rounded up.\<close>

definition Math_round_div :: "int \<Rightarrow> int \<Rightarrow> int" where
  "Math_round_div n d = (2 * n + d) div (2 * d)"

text \<open>\<^verbatim>\<open>new Date(ymd + "T00:00:00")\<close> as milliseconds: midnight of the day.\<close>

definition midnight :: "date \<Rightarrow> int" where
  "midnight d = dayNumber d * (1000 * 60 * 60 * 24)"

definition daysBetween :: "date \<Rightarrow> date \<Rightarrow> int" where
  "daysBetween from to =
     (let a = midnight from; b = midnight to
      in Math_round_div (b - a) (1000 * 60 * 60 * 24))"

section \<open>Derived helpers\<close>

definition levelFromXP :: "int \<Rightarrow> int" where
  "levelFromXP x = (num_or x 0) div 100 + 1"

text \<open>The local \<^verbatim>\<open>interval\<close> of \<^verbatim>\<open>isHabitDue\<close>.\<close>

definition interval :: "habit \<Rightarrow> int" where
  "interval h =
     (if freq h = Daily then 1
      else if freq h = Every2Days then 2
      else max 1 (num_or (intervalDays h) 1))"

definition isHabitDue :: "habit \<Rightarrow> date \<Rightarrow> bool" where
  "isHabitDue h d =
     (case lastDoneDate h of
        None \<Rightarrow> True
      | Some l \<Rightarrow> interval h \<le> daysBetween l d)"

text \<open>The interval as the specification words it: 1 for Daily, 2 for EveryTwoDays,
  \<open>max(1, intervalDays)\<close> for Custom.\<close>

fun spec_effectiveInterval :: "frequency \<Rightarrow> int \<Rightarrow> int" where
  "spec_effectiveInterval Daily n = 1"
| "spec_effectiveInterval Every2Days n = 2"
| "spec_effectiveInterval Custom n = max 1 n"

section \<open>Completing a habit\<close>

text \<open>The habit list of \<^verbatim>\<open>completeHabit\<close>: the habit with the given id is stamped and
  counted, every other habit is kept.\<close>

definition completedList :: "date \<Rightarrow> string \<Rightarrow> habit list \<Rightarrow> habit list" where
  "completedList today i hs =
     map (\<lambda>h. if hid h = i
               then h\<lparr>lastDoneDate := Some today,
                      totalCompletions := num_or (totalCompletions h) 0 + 1\<rparr>
               else h) hs"

definition addPoints :: int where
  "addPoints = 10"

text \<open>The overall streak: unchanged when already active today, 1 on the first activity,
  one more when the last activity was the day before, 1 otherwise.\<close>

definition newStreak :: "date \<Rightarrow> userdoc \<Rightarrow> int" where
  "newStreak today u =
     (case lastActiveDate u of
        None \<Rightarrow> 1
      | Some lastActive \<Rightarrow>
          if lastActive = today then num_or (overallStreak u) 0
          else (let gap = daysBetween lastActive today
                in if gap = 1 then num_or (overallStreak u) 0 + 1 else 1))"

text \<open>\<^verbatim>\<open>players.sort((a, b) => b.points - a.points)\<close>: the sort of an array is stable, and an
  element goes before the first one the comparator does not put it after.\<close>

fun insert_by :: "('a \<Rightarrow> 'a \<Rightarrow> int) \<Rightarrow> 'a \<Rightarrow> 'a list \<Rightarrow> 'a list" where
  "insert_by cmp x [] = [x]"
| "insert_by cmp x (y # ys) =
     (if cmp x y \<le> 0 then x # y # ys else y # insert_by cmp x ys)"

definition js_sort :: "('a \<Rightarrow> 'a \<Rightarrow> int) \<Rightarrow> 'a list \<Rightarrow> 'a list" where
  "js_sort cmp xs = foldr (insert_by cmp) xs []"

definition byPointsDesc :: "player \<Rightarrow> player \<Rightarrow> int" where
  "byPointsDesc a b = ppoints b - ppoints a"

text \<open>The leaderboard line of \<^verbatim>\<open>completeHabit\<close>:
  \<^verbatim>\<open>players.filter((p) => p.name !== me.name).concat(me).sort(...).slice(0, 5)\<close>.\<close>

definition reconcile :: "player list \<Rightarrow> player \<Rightarrow> player list" where
  "reconcile players me =
     take 5 (js_sort byPointsDesc (filter (\<lambda>p. pname p \<noteq> pname me) players @ [me]))"

definition completeHabit :: "date \<Rightarrow> string \<Rightarrow> state \<Rightarrow> signal \<times> state" where
  "completeHabit today i s =
     (case userDoc s of
        None \<Rightarrow> (Finished, s)
      | Some (name, u) \<Rightarrow>
          (let list = completedList today i (habits u);
               newXP = num_or (xp u) 0 + addPoints;
               newLevel = levelFromXP newXP;
               streak = newStreak today u
           in case users s name of
                None \<Rightarrow> (Rejected, s)
              | Some stored \<Rightarrow>
                  (let written = stored\<lparr>points := num_or (points u) 0 + addPoints,
                                        xp := newXP,
                                        level := newLevel,
                                        overallStreak := streak,
                                        lastActiveDate := Some today,
                                        habits := list\<rparr>;
                       s1 = s\<lparr>users := (users s)(name \<mapsto> written),
                              userDoc := Some (name, written)\<rparr>;
                       players = (case leaderboard s1 of Some ps \<Rightarrow> ps | None \<Rightarrow> []);
                       me = \<lparr>pname = name,
                             ppoints = num_or (points u) 0 + addPoints,
                             pstreak = streak,
                             plevel = newLevel\<rparr>
                   in (Finished, s1\<lparr>leaderboard := Some (reconcile players me)\<rparr>))))"

section \<open>The parts of the leaderboard line\<close>

text \<open>\<^verbatim>\<open>players.filter((p) => p.name !== me.name)\<close>: the entries of the other users.\<close>

definition others :: "player list \<Rightarrow> player \<Rightarrow> player list" where
  "others players me = filter (\<lambda>p. pname p \<noteq> pname me) players"

text \<open>For the proofs: the other users in the order of the sort, those with at least the points
  of the candidate, and those with fewer.\<close>

definition ahead :: "player list \<Rightarrow> player \<Rightarrow> player list" where
  "ahead players me =
     filter (\<lambda>p. ppoints me \<le> ppoints p) (sort_key (\<lambda>p. - ppoints p) (others players me))"

definition behind :: "player list \<Rightarrow> player \<Rightarrow> player list" where
  "behind players me =
     filter (\<lambda>p. ppoints p < ppoints me) (sort_key (\<lambda>p. - ppoints p) (others players me))"

section \<open>Adding and deleting habits\<close>

text \<open>\<^verbatim>\<open>s || d\<close> on a string: the empty string is falsy.\<close>

definition str_or :: "string \<Rightarrow> string \<Rightarrow> string" where
  "str_or x d = (if x = [] then d else x)"

text \<open>\<^verbatim>\<open>Number(v) || d\<close>: \<^verbatim>\<open>NaN\<close> and zero are falsy.\<close>

definition number_or :: "int option \<Rightarrow> int \<Rightarrow> int" where
  "number_or v d = (case v of None \<Rightarrow> d | Some n \<Rightarrow> num_or n d)"

text \<open>\<^verbatim>\<open>trim()\<close>, on the white space of ASCII: tab, line feed, vertical tab, form feed,
  carriage return and space.\<close>

definition is_space :: "char \<Rightarrow> bool" where
  "is_space c = (c \<in> set [CHR 0x09, CHR 0x0A, CHR 0x0B, CHR 0x0C, CHR 0x0D, CHR 0x20])"

definition trim :: "string \<Rightarrow> string" where
  "trim x = rev (dropWhile is_space (rev (dropWhile is_space x)))"

text \<open>\<open>uuid\<close> is the value of \<^verbatim>\<open>crypto.randomUUID()\<close>.\<close>

definition addHabit :: "string \<Rightarrow> state \<Rightarrow> signal \<times> state" where
  "addHabit uuid s =
     (case userDoc s of
        None \<Rightarrow> (Finished, s)
      | Some (name, u) \<Rightarrow>
          (let list = habits u
           in if 15 \<le> length list then (Alert ''Max 15 habits'', s)
              else
                (let t = trim (str_or (nh_title (newHabit s)) ''Untitled'')
                 in if t = [] then (Alert ''Give the habit a title'', s)
                    else
                      (let fr = nh_freq (newHabit s);
                           days = (if fr = Custom
                                   then max 1 (number_or (nh_intervalDays (newHabit s)) 1)
                                   else (if fr = Every2Days then 2 else 1));
                           h = \<lparr>hid = uuid, title = t, freq = fr, intervalDays = days,
                                lastDoneDate = None, totalCompletions = 0\<rparr>
                       in case users s name of
                            None \<Rightarrow> (Rejected, s)
                          | Some stored \<Rightarrow>
                              (let written = stored\<lparr>habits := list @ [h]\<rparr>
                               in (Finished,
                                   s\<lparr>users := (users s)(name \<mapsto> written),
                                     userDoc := Some (name, written),
                                     newHabit := \<lparr>nh_title = [], nh_freq = Daily,
                                                  nh_intervalDays = Some 1\<rparr>\<rparr>))))))"

definition deleteHabit :: "string \<Rightarrow> state \<Rightarrow> signal \<times> state" where
  "deleteHabit i s =
     (case userDoc s of
        None \<Rightarrow> (Finished, s)
      | Some (name, u) \<Rightarrow>
          (let list = filter (\<lambda>h. hid h \<noteq> i) (habits u)
           in case users s name of
                None \<Rightarrow> (Rejected, s)
              | Some stored \<Rightarrow>
                  (let written = stored\<lparr>habits := list\<rparr>
                   in (Finished, s\<lparr>users := (users s)(name \<mapsto> written),
                                   userDoc := Some (name, written)\<rparr>))))"

section \<open>Entering with a name and a code\<close>

text \<open>\<^verbatim>\<open>subscribeToUser(name)\<close>: the listener receives the document as it is, when it
  exists, and stores it in \<open>userDoc\<close> under the name.\<close>

definition subscribeToUser :: "string \<Rightarrow> state \<Rightarrow> state" where
  "subscribeToUser name s =
     (case users s name of
        Some d \<Rightarrow> s\<lparr>userDoc := Some (name, d)\<rparr>
      | None \<Rightarrow> s)"

text \<open>\<open>sha256\<close> is the digest of \<^verbatim>\<open>crypto.subtle\<close>, in hexadecimal: any function of the
  code.\<close>

definition handleEnter :: "(string \<Rightarrow> string) \<Rightarrow> state \<Rightarrow> signal \<times> state" where
  "handleEnter sha256 s =
     (if selectedName s = [] \<or> code s = [] then (Alert ''Enter name and code'', s)
      else
        (let ch = sha256 (code s);
             s0 = s\<lparr>codeHashState := ch\<rparr>;
             name = selectedName s0
         in case users s0 name of
              Some data \<Rightarrow>
                if codeHash data \<noteq> ch then (Alert ''Wrong code for this name'', s0)
                else (Finished, (subscribeToUser name s0)\<lparr>loading := False\<rparr>)
            | None \<Rightarrow>
                (let payload = \<lparr>codeHash = ch, points = 0, xp = 0, level = 1,
                                overallStreak = 0, lastActiveDate = None, habits = []\<rparr>;
                     s1 = s0\<lparr>users := (users s0)(name \<mapsto> payload)\<rparr>;
                     names = (case roster s1 of Some ns \<Rightarrow> ns | None \<Rightarrow> []);
                     s2 = (if name \<notin> set names
                           then s1\<lparr>roster := Some (take 50 (names @ [name]))\<rparr>
                           else s1)
                 in (Finished, (subscribeToUser name s2)\<lparr>loading := False\<rparr>))))"

section \<open>A user at work, for the examples\<close>

definition reading :: habit where
  "reading = \<lparr>hid = ''h1'', title = ''Read 20 mins'', freq = Custom, intervalDays = 3,
              lastDoneDate = Some (Day 19), totalCompletions = 7\<rparr>"

definition ann :: userdoc where
  "ann = \<lparr>codeHash = ''9f86'', points = 95, xp = 95, level = 1, overallStreak = 4,
          lastActiveDate = Some (Day 19), habits = [reading]\<rparr>"

definition session :: state where
  "session = \<lparr>selectedName = ''ann'', code = ''1234'', codeHashState = ''9f86'',
              userDoc = Some (''ann'', ann), loading = False,
              newHabit = \<lparr>nh_title = [], nh_freq = Daily, nh_intervalDays = Some 1\<rparr>,
              users = [''ann'' \<mapsto> ann], roster = Some [''ann''], leaderboard = None\<rparr>"

text \<open>The form filled in for a custom habit whose interval field holds no number, and the
  same with an interval of zero.\<close>

definition walk_form :: new_habit where
  "walk_form = \<lparr>nh_title = ''Walk'', nh_freq = Custom, nh_intervalDays = None\<rparr>"

definition walk_form_zero :: new_habit where
  "walk_form_zero = \<lparr>nh_title = ''Walk'', nh_freq = Custom, nh_intervalDays = Some 0\<rparr>"

text \<open>A digest for the examples: the code of \<open>ann\<close> has her hash, any other code another.\<close>

definition toy_sha :: "string \<Rightarrow> string" where
  "toy_sha c = (if c = ''1234'' then ''9f86'' else ''e3b0'')"

text \<open>The entry of the specification's example, a board that holds it already, and a full
  board of five other users.\<close>

definition entryA :: player where
  "entryA = \<lparr>pname = ''A'', ppoints = 50, pstreak = 1, plevel = 1\<rparr>"

definition boardA :: "player list" where
  "boardA = [\<lparr>pname = ''B'', ppoints = 80, pstreak = 2, plevel = 1\<rparr>,
             \<lparr>pname = ''A'', ppoints = 50, pstreak = 1, plevel = 1\<rparr>,
             \<lparr>pname = ''C'', ppoints = 20, pstreak = 1, plevel = 1\<rparr>]"

definition board5 :: "player list" where
  "board5 = [\<lparr>pname = ''B'', ppoints = 80, pstreak = 2, plevel = 1\<rparr>,
             \<lparr>pname = ''C'', ppoints = 70, pstreak = 1, plevel = 1\<rparr>,
             \<lparr>pname = ''D'', ppoints = 60, pstreak = 3, plevel = 1\<rparr>,
             \<lparr>pname = ''E'', ppoints = 40, pstreak = 1, plevel = 1\<rparr>,
             \<lparr>pname = ''F'', ppoints = 30, pstreak = 1, plevel = 1\<rparr>]"

section \<open>Facts about the utilities\<close>

lemma num_or_zero [simp]: "num_or x 0 = x"
  by (simp add: num_or_def)

lemma Math_round_div_exact: "0 < d \<Longrightarrow> Math_round_div (k * d) d = k"
proof -
  assume d: "0 < d"
  have e: "2 * (k * d) + d = d + k * (2 * d)" by (simp add: algebra_simps)
  have nz: "2 * d \<noteq> 0" using d by simp
  have "(d + k * (2 * d)) div (2 * d) = k + d div (2 * d)"
    using nz by (rule div_mult_self1)
  moreover have "d div (2 * d) = 0" using d by (simp add: div_pos_pos_trivial)
  ultimately show ?thesis by (simp only: Math_round_div_def e)
qed

text \<open>The rounding absorbs what two local midnights may differ by beyond whole days (a
  change of the clock): any offset of less than half a day.\<close>

lemma Math_round_div_near:
  assumes "0 < d" and "- d \<le> 2 * e" and "2 * e < d"
  shows "Math_round_div (k * d + e) d = k"
proof -
  have e: "2 * (k * d + e) + d = (2 * e + d) + k * (2 * d)" by (simp add: algebra_simps)
  have nz: "2 * d \<noteq> 0" using assms(1) by simp
  have "((2 * e + d) + k * (2 * d)) div (2 * d) = k + (2 * e + d) div (2 * d)"
    using nz by (rule div_mult_self1)
  moreover have "(2 * e + d) div (2 * d) = 0"
    using assms by (simp add: div_pos_pos_trivial)
  ultimately show ?thesis by (simp only: Math_round_div_def e)
qed

lemma daysBetween_diff: "daysBetween a b = dayNumber b - dayNumber a"
  unfolding daysBetween_def Let_def midnight_def left_diff_distrib [symmetric]
  by (rule Math_round_div_exact) simp

lemma levelFromXP_eq: "levelFromXP x = x div 100 + 1"
  by (simp add: levelFromXP_def)

section \<open>The due-date rule\<close>

lemma interval_spec: "interval h = spec_effectiveInterval (freq h) (intervalDays h)"
  by (cases "freq h") (simp_all add: interval_def num_or_def)

text \<open>
  Claim C1. A habit never completed is due; a habit completed on day \<open>l\<close> is due on the
  reference date exactly when the days between \<open>l\<close> and that date reach the effective
  interval of the specification: 1 for Daily, 2 for EveryTwoDays, \<open>max(1, intervalDays)\<close>
  for Custom.
\<close>

theorem isHabitDue_effectiveInterval:
  "isHabitDue h d =
     (case lastDoneDate h of
        None \<Rightarrow> True
      | Some l \<Rightarrow> spec_effectiveInterval (freq h) (intervalDays h) \<le> daysBetween l d)"
  by (simp add: isHabitDue_def interval_spec split: option.split)

text \<open>The examples of the specification: a custom interval of three days, last done on
  day 19, is not due two days later and is due three days later.\<close>

lemma isHabitDue_examples:
  "\<not> isHabitDue reading (Day 21)" "isHabitDue reading (Day 22)"
  "isHabitDue (reading\<lparr>lastDoneDate := None\<rparr>) (Day 19)"
  by (simp_all add: isHabitDue_def interval_def reading_def num_or_def daysBetween_diff)

section \<open>What a completion writes\<close>

lemma completeHabit_written:
  assumes "userDoc s = Some (name, u)" and "users s name = Some stored"
  shows "fst (completeHabit today i s) = Finished"
    and "users (snd (completeHabit today i s)) name =
           Some (stored\<lparr>points := points u + 10, xp := xp u + 10,
                        level := (xp u + 10) div 100 + 1,
                        overallStreak := newStreak today u,
                        lastActiveDate := Some today,
                        habits := completedList today i (habits u)\<rparr>)"
    and "leaderboard (snd (completeHabit today i s)) =
           Some (reconcile (case leaderboard s of Some ps \<Rightarrow> ps | None \<Rightarrow> [])
                   \<lparr>pname = name, ppoints = points u + 10, pstreak = newStreak today u,
                    plevel = (xp u + 10) div 100 + 1\<rparr>)"
  using assms by (simp_all add: completeHabit_def Let_def addPoints_def levelFromXP_eq)

lemma completedList_unknown: "i \<notin> hid ` set hs \<Longrightarrow> completedList today i hs = hs"
  by (induction hs) (auto simp: completedList_def)

text \<open>
  Claim C2. One completion adds exactly 10 to the points and to the xp of the user, and
  stores the level \<open>floor(newXp / 100) + 1\<close>; from xp 95 one completion gives xp 105 and
  level 2. (\<open>u\<close> is the user state the handler works from, \<open>w\<close> the document it leaves in
  the store.)
\<close>

theorem completeHabit_scoring:
  assumes "userDoc s = Some (name, u)" and "users s name = Some stored"
  shows "\<exists>w. users (snd (completeHabit today i s)) name = Some w
           \<and> points w = points u + 10
           \<and> xp w = xp u + 10
           \<and> level w = xp w div 100 + 1
           \<and> (xp u = 95 \<longrightarrow> xp w = 105 \<and> level w = 2)"
  using completeHabit_written(2) [OF assms, of today i] by simp

theorem completeHabit_scoring_witness:
  "userDoc session = Some (''ann'', ann) \<and> users session ''ann'' = Some ann \<and> xp ann = 95
   \<and> (\<exists>w. users (snd (completeHabit (Day 20) ''h1'' session)) ''ann'' = Some w
         \<and> points w = 105 \<and> xp w = 105 \<and> level w = 2)"
proof -
  have a: "userDoc session = Some (''ann'', ann)" by (simp add: session_def)
  have b: "users session ''ann'' = Some ann" by (simp add: session_def)
  have c: "xp ann = 95" "points ann = 95" by (simp_all add: ann_def)
  from completeHabit_scoring [OF a b, of "Day 20" "''h1''"] a b c show ?thesis by auto
qed

text \<open>
  Claim C3. The streak a completion stores: unchanged when the last active date is today
  (a second habit on the same day does not inflate it), 1 when there is no last active
  date, and otherwise, with \<open>gap = daysBetween lastActiveDate today\<close>, one more when the gap
  is 1 and 1 for every other gap (two or more, zero or less).
\<close>

theorem completeHabit_streak:
  assumes "userDoc s = Some (name, u)" and "users s name = Some stored"
  shows "\<exists>w. users (snd (completeHabit today i s)) name = Some w
           \<and> (lastActiveDate u = Some today \<longrightarrow> overallStreak w = overallStreak u)
           \<and> (lastActiveDate u = None \<longrightarrow> overallStreak w = 1)
           \<and> (\<forall>l. lastActiveDate u = Some l \<and> l \<noteq> today \<longrightarrow>
                  (daysBetween l today = 1 \<longrightarrow> overallStreak w = overallStreak u + 1)
                \<and> (daysBetween l today \<noteq> 1 \<longrightarrow> overallStreak w = 1))"
  using completeHabit_written(2) [OF assms, of today i]
  by (simp add: newStreak_def Let_def)

theorem completeHabit_streak_witness:
  "userDoc session = Some (''ann'', ann) \<and> users session ''ann'' = Some ann
   \<and> overallStreak ann = 4 \<and> lastActiveDate ann = Some (Day 19)
   \<and> daysBetween (Day 19) (Day 20) = 1 \<and> daysBetween (Day 19) (Day 22) = 3
   \<and> daysBetween (Day 19) (Day 18) = - 1
   \<and> (\<exists>w. users (snd (completeHabit (Day 19) ''h1'' session)) ''ann'' = Some w
         \<and> overallStreak w = 4)
   \<and> (\<exists>w. users (snd (completeHabit (Day 20) ''h1'' session)) ''ann'' = Some w
         \<and> overallStreak w = 5)
   \<and> (\<exists>w. users (snd (completeHabit (Day 22) ''h1'' session)) ''ann'' = Some w
         \<and> overallStreak w = 1)
   \<and> (\<exists>w. users (snd (completeHabit (Day 18) ''h1'' session)) ''ann'' = Some w
         \<and> overallStreak w = 1)"
proof -
  have a: "userDoc session = Some (''ann'', ann)" by (simp add: session_def)
  have b: "users session ''ann'' = Some ann" by (simp add: session_def)
  have c: "overallStreak ann = 4" "lastActiveDate ann = Some (Day 19)"
    by (simp_all add: ann_def)
  have d: "daysBetween (Day 19) (Day 20) = 1" "daysBetween (Day 19) (Day 22) = 3"
    "daysBetween (Day 19) (Day 18) = - 1"
    by (simp_all add: daysBetween_diff)
  from completeHabit_streak [OF a b, of "Day 19" "''h1''"] c
  have e: "\<exists>w. users (snd (completeHabit (Day 19) ''h1'' session)) ''ann'' = Some w
             \<and> overallStreak w = 4"
    by auto
  from completeHabit_streak [OF a b, of "Day 20" "''h1''"] c d
  have f: "\<exists>w. users (snd (completeHabit (Day 20) ''h1'' session)) ''ann'' = Some w
             \<and> overallStreak w = 5"
    by auto
  from completeHabit_streak [OF a b, of "Day 22" "''h1''"] c d
  have g: "\<exists>w. users (snd (completeHabit (Day 22) ''h1'' session)) ''ann'' = Some w
             \<and> overallStreak w = 1"
    by auto
  from completeHabit_streak [OF a b, of "Day 18" "''h1''"] c d
  have h: "\<exists>w. users (snd (completeHabit (Day 18) ''h1'' session)) ''ann'' = Some w
             \<and> overallStreak w = 1"
    by auto
  from a b c d e f g h show ?thesis by blast
qed

text \<open>The first activity of a user: the streak becomes 1.\<close>

lemma completeHabit_first_activity:
  "\<exists>w. users (snd (completeHabit (Day 20) ''h1''
          (session\<lparr>userDoc := Some (''ann'', ann\<lparr>lastActiveDate := None\<rparr>)\<rparr>))) ''ann'' = Some w
       \<and> overallStreak w = 1"
  by (simp add: completeHabit_def Let_def session_def newStreak_def)

text \<open>
  Claim C4. Completing a habit of the user's list sets its \<open>lastDoneDate\<close> to today and adds
  exactly 1 to its \<open>totalCompletions\<close>, whether or not the habit was due: the handler runs to
  its end and asks nothing about \<open>isHabitDue\<close>.
\<close>

theorem completeHabit_stamps_habit:
  assumes "userDoc s = Some (name, u)" and "users s name = Some stored"
    and "k < length (habits u)" and "hid (habits u ! k) = i"
  shows "fst (completeHabit today i s) = Finished
       \<and> (\<exists>w. users (snd (completeHabit today i s)) name = Some w
             \<and> length (habits w) = length (habits u)
             \<and> lastDoneDate (habits w ! k) = Some today
             \<and> totalCompletions (habits w ! k) = totalCompletions (habits u ! k) + 1
             \<and> habits w ! k = (habits u ! k)
                  \<lparr>lastDoneDate := Some today,
                   totalCompletions := totalCompletions (habits u ! k) + 1\<rparr>)"
  using completeHabit_written(1,2) [OF assms(1,2), of today i] assms(3,4)
  by (simp add: completedList_def)

theorem completeHabit_stamps_habit_witness:
  "userDoc session = Some (''ann'', ann) \<and> users session ''ann'' = Some ann
   \<and> (0::nat) < length (habits ann) \<and> hid (habits ann ! 0) = ''h1''
   \<and> totalCompletions (habits ann ! 0) = 7
   \<and> \<not> isHabitDue (habits ann ! 0) (Day 20)
   \<and> fst (completeHabit (Day 20) ''h1'' session) = Finished
   \<and> (\<exists>w. users (snd (completeHabit (Day 20) ''h1'' session)) ''ann'' = Some w
         \<and> lastDoneDate (habits w ! 0) = Some (Day 20)
         \<and> totalCompletions (habits w ! 0) = 8)"
proof -
  have a: "userDoc session = Some (''ann'', ann)" by (simp add: session_def)
  have b: "users session ''ann'' = Some ann" by (simp add: session_def)
  have c: "(0::nat) < length (habits ann)" "hid (habits ann ! 0) = ''h1''"
    "totalCompletions (habits ann ! 0) = 7"
    by (simp_all add: ann_def reading_def)
  have d: "\<not> isHabitDue (habits ann ! 0) (Day 20)"
    by (simp add: ann_def reading_def isHabitDue_def interval_def num_or_def daysBetween_diff)
  from completeHabit_stamps_habit [OF a b c(1) c(2), of "Day 20"] a b c d
  show ?thesis by auto
qed

text \<open>
  Claim C10. With an id that no habit of the list has, the handler still adds 10 to points
  and xp, recomputes the level, applies the streak transition, sets \<open>lastActiveDate\<close> to
  today and rewrites the leaderboard with the user's new standing; the habit list is the
  one it was.
\<close>

theorem completeHabit_unknown_id:
  assumes "userDoc s = Some (name, u)" and "users s name = Some stored"
    and "i \<notin> hid ` set (habits u)"
  shows "fst (completeHabit today i s) = Finished
       \<and> (\<exists>w. users (snd (completeHabit today i s)) name = Some w
             \<and> habits w = habits u
             \<and> points w = points u + 10
             \<and> xp w = xp u + 10
             \<and> level w = (xp u + 10) div 100 + 1
             \<and> overallStreak w = newStreak today u
             \<and> lastActiveDate w = Some today
             \<and> leaderboard (snd (completeHabit today i s)) =
                 Some (reconcile (case leaderboard s of Some ps \<Rightarrow> ps | None \<Rightarrow> [])
                         \<lparr>pname = name, ppoints = points w, pstreak = overallStreak w,
                          plevel = level w\<rparr>))"
proof -
  have "completedList today i (habits u) = habits u"
    using assms(3) by (rule completedList_unknown)
  with completeHabit_written [OF assms(1,2), of today i] show ?thesis by simp
qed

theorem completeHabit_unknown_id_witness:
  "userDoc session = Some (''ann'', ann) \<and> users session ''ann'' = Some ann
   \<and> ''nope'' \<notin> hid ` set (habits ann)
   \<and> fst (completeHabit (Day 20) ''nope'' session) = Finished
   \<and> (\<exists>w. users (snd (completeHabit (Day 20) ''nope'' session)) ''ann'' = Some w
         \<and> habits w = [reading] \<and> points w = 105 \<and> xp w = 105 \<and> level w = 2
         \<and> overallStreak w = 5 \<and> lastActiveDate w = Some (Day 20))
   \<and> leaderboard (snd (completeHabit (Day 20) ''nope'' session)) =
       Some [\<lparr>pname = ''ann'', ppoints = 105, pstreak = 5, plevel = 2\<rparr>]"
proof -
  have a: "userDoc session = Some (''ann'', ann)" by (simp add: session_def)
  have b: "users session ''ann'' = Some ann" by (simp add: session_def)
  have c: "''nope'' \<notin> hid ` set (habits ann)" by (simp add: ann_def reading_def)
  have d: "habits ann = [reading]" "points ann = 95" "xp ann = 95"
    by (simp_all add: ann_def)
  have e: "newStreak (Day 20) ann = 5"
    by (simp add: newStreak_def ann_def daysBetween_diff)
  have f: "leaderboard session = None" by (simp add: session_def)
  have g: "reconcile [] \<lparr>pname = ''ann'', ppoints = 105, pstreak = 5, plevel = 2\<rparr>
           = [\<lparr>pname = ''ann'', ppoints = 105, pstreak = 5, plevel = 2\<rparr>]"
    by (simp add: reconcile_def js_sort_def)
  from completeHabit_unknown_id [OF a b c, of "Day 20"] a b c d e f g
  show ?thesis by auto
qed

section \<open>Adding a habit\<close>

lemma addHabit_added:
  assumes "userDoc s = Some (name, u)" and "users s name = Some stored"
    and "length (habits u) < 15"
    and "trim (str_or (nh_title (newHabit s)) ''Untitled'') \<noteq> []"
  shows "fst (addHabit uuid s) = Finished"
    and "users (snd (addHabit uuid s)) name =
           Some (stored\<lparr>habits := habits u @
                   [\<lparr>hid = uuid,
                     title = trim (str_or (nh_title (newHabit s)) ''Untitled''),
                     freq = nh_freq (newHabit s),
                     intervalDays =
                       (if nh_freq (newHabit s) = Custom
                        then max 1 (number_or (nh_intervalDays (newHabit s)) 1)
                        else (if nh_freq (newHabit s) = Every2Days then 2 else 1)),
                     lastDoneDate = None, totalCompletions = 0\<rparr>]\<rparr>)"
  using assms by (simp_all add: addHabit_def Let_def)

lemma trim_Walk: "trim (str_or ''Walk'' ''Untitled'') = ''Walk''"
  by (simp add: trim_def str_or_def is_space_def)

lemma trim_Untitled: "trim (str_or [] ''Untitled'') = ''Untitled''"
  by (simp add: trim_def str_or_def is_space_def)

text \<open>
  Claim C7. With 15 habits in the list, adding a habit fails with the alert
  \<^verbatim>\<open>Max 15 habits\<close> (the specification's CapacityExceeded) and changes nothing, the habit
  list included; with 14 habits or fewer the capacity check lets the request through, and
  the habit is appended to the list (the request having a title that is not blank, and the
  user's document being in the store).
\<close>

theorem addHabit_capacity:
  assumes "userDoc s = Some (name, u)"
  shows "(length (habits u) = 15 \<longrightarrow>
            addHabit uuid s = (Alert ''Max 15 habits'', s))
       \<and> (length (habits u) \<le> 14 \<longrightarrow>
            fst (addHabit uuid s) \<noteq> Alert ''Max 15 habits''
          \<and> (users s name = Some stored
               \<and> trim (str_or (nh_title (newHabit s)) ''Untitled'') \<noteq> [] \<longrightarrow>
                fst (addHabit uuid s) = Finished
              \<and> (\<exists>w h. users (snd (addHabit uuid s)) name = Some w
                     \<and> habits w = habits u @ [h] \<and> hid h = uuid
                     \<and> length (habits w) = length (habits u) + 1)))"
proof (intro conjI impI)
  assume "length (habits u) = 15"
  with assms show "addHabit uuid s = (Alert ''Max 15 habits'', s)"
    by (simp add: addHabit_def)
next
  assume "length (habits u) \<le> 14"
  with assms show "fst (addHabit uuid s) \<noteq> Alert ''Max 15 habits''"
    by (simp add: addHabit_def Let_def split: option.split)
next
  assume n: "length (habits u) \<le> 14"
    and "users s name = Some stored \<and> trim (str_or (nh_title (newHabit s)) ''Untitled'') \<noteq> []"
  then have st: "users s name = Some stored"
    and t: "trim (str_or (nh_title (newHabit s)) ''Untitled'') \<noteq> []"
    by simp_all
  from n have lt: "length (habits u) < 15" by simp
  show "fst (addHabit uuid s) = Finished"
    by (rule addHabit_added(1) [OF assms st lt t])
  show "\<exists>w h. users (snd (addHabit uuid s)) name = Some w
          \<and> habits w = habits u @ [h] \<and> hid h = uuid
          \<and> length (habits w) = length (habits u) + 1"
    using addHabit_added(2) [OF assms st lt t, of uuid] by simp
qed

theorem addHabit_capacity_witness:
  "userDoc (session\<lparr>userDoc := Some (''ann'', ann\<lparr>habits := replicate 15 reading\<rparr>)\<rparr>)
     = Some (''ann'', ann\<lparr>habits := replicate 15 reading\<rparr>)
   \<and> length (habits (ann\<lparr>habits := replicate 15 reading\<rparr>)) = 15
   \<and> addHabit ''u16'' (session\<lparr>userDoc := Some (''ann'', ann\<lparr>habits := replicate 15 reading\<rparr>)\<rparr>)
     = (Alert ''Max 15 habits'',
        session\<lparr>userDoc := Some (''ann'', ann\<lparr>habits := replicate 15 reading\<rparr>)\<rparr>)
   \<and> userDoc (session\<lparr>userDoc := Some (''ann'', ann\<lparr>habits := replicate 14 reading\<rparr>)\<rparr>)
     = Some (''ann'', ann\<lparr>habits := replicate 14 reading\<rparr>)
   \<and> length (habits (ann\<lparr>habits := replicate 14 reading\<rparr>)) \<le> 14
   \<and> users (session\<lparr>userDoc := Some (''ann'', ann\<lparr>habits := replicate 14 reading\<rparr>)\<rparr>) ''ann''
     = Some ann
   \<and> trim (str_or (nh_title (newHabit
        (session\<lparr>userDoc := Some (''ann'', ann\<lparr>habits := replicate 14 reading\<rparr>)\<rparr>)))
        ''Untitled'') \<noteq> []
   \<and> fst (addHabit ''u15''
        (session\<lparr>userDoc := Some (''ann'', ann\<lparr>habits := replicate 14 reading\<rparr>)\<rparr>)) = Finished
   \<and> (\<exists>w. users (snd (addHabit ''u15''
        (session\<lparr>userDoc := Some (''ann'', ann\<lparr>habits := replicate 14 reading\<rparr>)\<rparr>))) ''ann''
          = Some w \<and> length (habits w) = 15)"
proof -
  let ?full = "session\<lparr>userDoc := Some (''ann'', ann\<lparr>habits := replicate 15 reading\<rparr>)\<rparr>"
  let ?room = "session\<lparr>userDoc := Some (''ann'', ann\<lparr>habits := replicate 14 reading\<rparr>)\<rparr>"
  have a: "userDoc ?full = Some (''ann'', ann\<lparr>habits := replicate 15 reading\<rparr>)" by simp
  have b: "length (habits (ann\<lparr>habits := replicate 15 reading\<rparr>)) = 15" by simp
  have c: "userDoc ?room = Some (''ann'', ann\<lparr>habits := replicate 14 reading\<rparr>)" by simp
  have d: "length (habits (ann\<lparr>habits := replicate 14 reading\<rparr>)) \<le> 14" by simp
  have e: "users ?room ''ann'' = Some ann" by (simp add: session_def)
  have f: "trim (str_or (nh_title (newHabit ?room)) ''Untitled'') \<noteq> []"
    by (simp add: session_def trim_Untitled)
  from addHabit_capacity [OF a, of "''u16''"] b
  have g: "addHabit ''u16'' ?full = (Alert ''Max 15 habits'', ?full)" by simp
  from addHabit_capacity [OF c, of "''u15''" ann] d e f
  have h: "fst (addHabit ''u15'' ?room) = Finished
     \<and> (\<exists>w. users (snd (addHabit ''u15'' ?room)) ''ann'' = Some w \<and> length (habits w) = 15)"
    by auto
  from a b c d e f g h show ?thesis by blast
qed

text \<open>
  Claim C9, as the code has it. A custom habit whose interval input is not a number, or is
  a number below 1, is added all the same, with an interval of 1: the handler clamps the
  input and has no alert for it.
\<close>

theorem addHabit_clamps_interval:
  assumes "userDoc s = Some (name, u)" and "users s name = Some stored"
    and "length (habits u) < 15"
    and "trim (str_or (nh_title (newHabit s)) ''Untitled'') \<noteq> []"
    and "nh_freq (newHabit s) = Custom"
    and "nh_intervalDays (newHabit s) = None
         \<or> (\<exists>n. nh_intervalDays (newHabit s) = Some n \<and> n < 1)"
  shows "fst (addHabit uuid s) = Finished
       \<and> (\<exists>w. users (snd (addHabit uuid s)) name = Some w
             \<and> habits w = habits u @
                 [\<lparr>hid = uuid,
                   title = trim (str_or (nh_title (newHabit s)) ''Untitled''),
                   freq = Custom, intervalDays = 1,
                   lastDoneDate = None, totalCompletions = 0\<rparr>])"
proof -
  from assms(6) have "max 1 (number_or (nh_intervalDays (newHabit s)) 1) = 1"
    by (auto simp: number_or_def num_or_def)
  with addHabit_added [OF assms(1-4), of uuid] assms(5) show ?thesis by simp
qed

theorem addHabit_clamps_interval_witness:
  "userDoc (session\<lparr>newHabit := walk_form\<rparr>) = Some (''ann'', ann)
   \<and> users (session\<lparr>newHabit := walk_form\<rparr>) ''ann'' = Some ann
   \<and> length (habits ann) < 15
   \<and> trim (str_or (nh_title (newHabit (session\<lparr>newHabit := walk_form\<rparr>))) ''Untitled'') \<noteq> []
   \<and> nh_freq (newHabit (session\<lparr>newHabit := walk_form\<rparr>)) = Custom
   \<and> nh_intervalDays (newHabit (session\<lparr>newHabit := walk_form\<rparr>)) = None
   \<and> fst (addHabit ''u2'' (session\<lparr>newHabit := walk_form\<rparr>)) = Finished
   \<and> (\<exists>w. users (snd (addHabit ''u2'' (session\<lparr>newHabit := walk_form\<rparr>))) ''ann'' = Some w
         \<and> habits w = [reading,
               \<lparr>hid = ''u2'', title = ''Walk'', freq = Custom, intervalDays = 1,
                lastDoneDate = None, totalCompletions = 0\<rparr>])"
proof -
  let ?s = "session\<lparr>newHabit := walk_form\<rparr>"
  have a: "userDoc ?s = Some (''ann'', ann)" by (simp add: session_def)
  have b: "users ?s ''ann'' = Some ann" by (simp add: session_def)
  have c: "length (habits ann) < 15" by (simp add: ann_def)
  have d: "trim (str_or (nh_title (newHabit ?s)) ''Untitled'') \<noteq> []"
    by (simp add: walk_form_def trim_Walk)
  have e: "nh_freq (newHabit ?s) = Custom" by (simp add: walk_form_def)
  have f: "nh_intervalDays (newHabit ?s) = None" by (simp add: walk_form_def)
  have g: "habits ann = [reading]" by (simp add: ann_def)
  have h: "nh_title (newHabit ?s) = ''Walk''" by (simp add: walk_form_def)
  from f have f': "nh_intervalDays (newHabit ?s) = None
      \<or> (\<exists>n. nh_intervalDays (newHabit ?s) = Some n \<and> n < 1)" by simp
  from addHabit_clamps_interval [OF a b c d e f', of "''u2''"] g h trim_Walk
  have "fst (addHabit ''u2'' ?s) = Finished
     \<and> (\<exists>w. users (snd (addHabit ''u2'' ?s)) ''ann'' = Some w
           \<and> habits w = [reading,
                 \<lparr>hid = ''u2'', title = ''Walk'', freq = Custom, intervalDays = 1,
                  lastDoneDate = None, totalCompletions = 0\<rparr>])"
    by simp
  with a b c d e f show ?thesis by blast
qed

text \<open>Claim C9 as stated fails: with an interval input that is not a number, and with one that
  is zero, the handler raises no alert and the user has one habit more.\<close>

theorem addHabit_malformed_interval_counterexample:
  "fst (addHabit ''u2'' (session\<lparr>newHabit := walk_form\<rparr>)) = Finished
   \<and> map_option habits (users (snd (addHabit ''u2'' (session\<lparr>newHabit := walk_form\<rparr>))) ''ann'')
     = Some [reading,
             \<lparr>hid = ''u2'', title = ''Walk'', freq = Custom, intervalDays = 1,
              lastDoneDate = None, totalCompletions = 0\<rparr>]
   \<and> fst (addHabit ''u3'' (session\<lparr>newHabit := walk_form_zero\<rparr>)) = Finished
   \<and> map_option habits
       (users (snd (addHabit ''u3'' (session\<lparr>newHabit := walk_form_zero\<rparr>))) ''ann'')
     = Some [reading,
             \<lparr>hid = ''u3'', title = ''Walk'', freq = Custom, intervalDays = 1,
              lastDoneDate = None, totalCompletions = 0\<rparr>]"
  by (simp add: addHabit_def Let_def session_def ann_def walk_form_def walk_form_zero_def
      trim_Walk number_or_def num_or_def)

section \<open>The identity gate\<close>

text \<open>
  Claim C8. For a name that has a user document, entering with a code whose hash is not the
  stored \<open>codeHash\<close> ends in an alert, \<^verbatim>\<open>Wrong code for this name\<close> (the specification's
  InvalidCredential) once name and code are not empty, and writes nothing: the users, the
  roster and the leaderboard are what they were, and \<open>userDoc\<close>, the session, is what it
  was, so that no session starts.
\<close>

theorem handleEnter_wrong_code:
  assumes "users s (selectedName s) = Some d" and "codeHash d \<noteq> sha256 (code s)"
  shows "users (snd (handleEnter sha256 s)) = users s
       \<and> roster (snd (handleEnter sha256 s)) = roster s
       \<and> leaderboard (snd (handleEnter sha256 s)) = leaderboard s
       \<and> userDoc (snd (handleEnter sha256 s)) = userDoc s
       \<and> loading (snd (handleEnter sha256 s)) = loading s
       \<and> fst (handleEnter sha256 s) \<in> {Alert ''Wrong code for this name'',
                                          Alert ''Enter name and code''}
       \<and> (selectedName s \<noteq> [] \<and> code s \<noteq> [] \<longrightarrow>
            fst (handleEnter sha256 s) = Alert ''Wrong code for this name'')"
  using assms by (simp add: handleEnter_def Let_def)

theorem handleEnter_wrong_code_witness:
  "users (session\<lparr>userDoc := None, code := ''0000''\<rparr>)
     (selectedName (session\<lparr>userDoc := None, code := ''0000''\<rparr>)) = Some ann
   \<and> codeHash ann \<noteq> toy_sha (code (session\<lparr>userDoc := None, code := ''0000''\<rparr>))
   \<and> fst (handleEnter toy_sha (session\<lparr>userDoc := None, code := ''0000''\<rparr>))
     = Alert ''Wrong code for this name''
   \<and> userDoc (snd (handleEnter toy_sha (session\<lparr>userDoc := None, code := ''0000''\<rparr>))) = None
   \<and> users (snd (handleEnter toy_sha (session\<lparr>userDoc := None, code := ''0000''\<rparr>)))
     = users session
   \<and> roster (snd (handleEnter toy_sha (session\<lparr>userDoc := None, code := ''0000''\<rparr>)))
     = Some [''ann'']
   \<and> leaderboard (snd (handleEnter toy_sha (session\<lparr>userDoc := None, code := ''0000''\<rparr>)))
     = None"
proof -
  let ?s = "session\<lparr>userDoc := None, code := ''0000''\<rparr>"
  have a: "users ?s (selectedName ?s) = Some ann" by (simp add: session_def)
  have b: "codeHash ann \<noteq> toy_sha (code ?s)" by (simp add: ann_def toy_sha_def)
  have c: "selectedName ?s \<noteq> []" "code ?s \<noteq> []" "userDoc ?s = None"
    "users ?s = users session" "roster ?s = Some [''ann'']" "leaderboard ?s = None"
    by (simp_all add: session_def)
  from handleEnter_wrong_code [of ?s ann toy_sha, OF a b] a b c show ?thesis by simp
qed

text \<open>With the right code the same user enters: the session starts.\<close>

lemma handleEnter_right_code:
  "handleEnter toy_sha (session\<lparr>userDoc := None\<rparr>) = (Finished, session)"
  by (simp add: handleEnter_def Let_def session_def ann_def toy_sha_def subscribeToUser_def)

section \<open>The leaderboard\<close>

lemma insert_by_insort:
  "insert_by byPointsDesc x ys = insort_key (\<lambda>p. - ppoints p) x ys"
  by (induction ys) (simp_all add: byPointsDesc_def)

lemma js_sort_sort_key: "js_sort byPointsDesc xs = sort_key (\<lambda>p. - ppoints p) xs"
  by (induction xs) (simp_all add: js_sort_def insert_by_insort)

lemma insort_key_before:
  "f x \<le> f c \<Longrightarrow> insort_key f x (A @ c # C) = insort_key f x A @ c # C"
  by (induction A) simp_all

lemma insort_key_after:
  "\<forall>a\<in>set A. f a < f x \<Longrightarrow> insort_key f x (A @ C) = A @ insort_key f x C"
  by (induction A) auto

lemma sort_key_snoc:
  "sort_key f (F @ [m]) =
     filter (\<lambda>p. f p \<le> f m) (sort_key f F) @ m # filter (\<lambda>p. f m < f p) (sort_key f F)"
proof (induction F)
  case Nil
  then show ?case by simp
next
  case (Cons x F)
  show ?case
  proof (cases "f x \<le> f m")
    case True
    then show ?thesis
      using Cons by (simp add: filter_insort filter_insort_triv insort_key_before)
  next
    case False
    then have "\<forall>a\<in>set (filter (\<lambda>p. f p \<le> f m) (sort_key f F)). f a < f x" by auto
    then show ?thesis
      using Cons False by (simp add: filter_insort filter_insort_triv insort_key_after)
  qed
qed

lemma sort_key_put_last:
  assumes "sorted (map f (A @ B))" and "\<forall>a\<in>set A. f a \<le> f m" and "\<forall>b\<in>set B. f m < f b"
  shows "sort_key f (A @ B @ [m]) = A @ m # B"
proof -
  have AB: "filter (\<lambda>p. f p \<le> f m) (A @ B) = A" "filter (\<lambda>p. f m < f p) (A @ B) = B"
    using assms(2,3) by (auto simp: filter_empty_conv filter_id_conv not_le)
  have "sort_key f (A @ B) = A @ B" using assms(1) by (rule sort_key_id_if_sorted)
  with sort_key_snoc [of f "A @ B" m] AB show ?thesis by simp
qed

lemma reconcile_sort_key:
  "reconcile players me = take 5 (sort_key (\<lambda>p. - ppoints p) (others players me @ [me]))"
  by (simp add: reconcile_def js_sort_sort_key others_def)

lemma reconcile_shape:
  "reconcile players me =
     (if 5 \<le> length (ahead players me) then take 5 (ahead players me)
      else ahead players me @ me # take (4 - length (ahead players me)) (behind players me))"
proof -
  have "reconcile players me = take 5 (ahead players me @ me # behind players me)"
    by (simp add: reconcile_sort_key sort_key_snoc ahead_def behind_def)
  then show ?thesis by (auto simp: take_Cons')
qed

lemma ahead_behind_names:
  "p \<in> set (ahead players me) \<Longrightarrow> pname p \<noteq> pname me"
  "p \<in> set (behind players me) \<Longrightarrow> pname p \<noteq> pname me"
  by (auto simp: ahead_def behind_def others_def)

lemma ahead_behind_points:
  "p \<in> set (ahead players me) \<Longrightarrow> ppoints me \<le> ppoints p"
  "p \<in> set (behind players me) \<Longrightarrow> ppoints p < ppoints me"
  by (auto simp: ahead_def behind_def)

lemma ahead_behind_sorted:
  "sorted (map (\<lambda>p. - ppoints p) (ahead players me @ behind players me))"
proof -
  have "sorted (map (\<lambda>p. - ppoints p) (ahead players me))"
    "sorted (map (\<lambda>p. - ppoints p) (behind players me))"
    by (simp_all add: ahead_def behind_def sorted_filter)
  then show ?thesis
    by (fastforce simp: sorted_append dest: ahead_behind_points)
qed

lemma length_ahead: "length (ahead players me) \<le> length (others players me)"
  using length_filter_le [of _ "sort_key (\<lambda>p. - ppoints p) (others players me)"]
  by (simp add: ahead_def)

lemma sorted_append_take:
  assumes "sorted (map f (A @ B))"
  shows "sorted (map f (A @ take n B))"
proof -
  have "map f (A @ take n B) = take (length A + n) (map f (A @ B))"
    by (simp add: take_map)
  with assms show ?thesis by (simp only: sorted_wrt_take)
qed

lemma others_names:
  assumes "\<forall>p\<in>set xs. pname p \<noteq> pname me"
  shows "filter (\<lambda>p. pname p \<noteq> pname me) xs = xs"
    and "filter (\<lambda>p. pname p = pname me) xs = []"
  using assms by (induction xs) auto

lemma ahead_names: "\<forall>p\<in>set (take n (ahead players me)). pname p \<noteq> pname me"
  by (auto dest: in_set_takeD ahead_behind_names)

lemma behind_names: "\<forall>p\<in>set (take n (behind players me)). pname p \<noteq> pname me"
  by (auto dest: in_set_takeD ahead_behind_names)

lemma ahead_names': "\<forall>p\<in>set (ahead players me). pname p \<noteq> pname me"
  by (auto dest: ahead_behind_names)

lemma reconcile_again: "reconcile (reconcile players me) me = reconcile players me"
proof (cases "5 \<le> length (ahead players me)")
  case True
  let ?R = "take 5 (ahead players me)"
  have R: "reconcile players me = ?R" using True by (simp add: reconcile_shape)
  have names: "others ?R me = ?R"
    by (simp add: others_def others_names(1) [OF ahead_names])
  have "sorted (map (\<lambda>p. - ppoints p) (ahead players me))"
    by (simp add: ahead_def sorted_filter)
  then have "sorted (map (\<lambda>p. - ppoints p) ([] @ ahead players me))"
    by simp
  then have "sorted (map (\<lambda>p. - ppoints p) ([] @ ?R))"
    by (rule sorted_append_take)
  then have "sorted (map (\<lambda>p. - ppoints p) (?R @ []))"
    by simp
  moreover have "\<forall>a\<in>set ?R. - ppoints a \<le> - ppoints me"
    by (auto dest: in_set_takeD ahead_behind_points)
  ultimately have "sort_key (\<lambda>p. - ppoints p) (?R @ [] @ [me]) = ?R @ me # []"
    by (intro sort_key_put_last) simp_all
  then have "reconcile ?R me = take 5 (?R @ [me])"
    by (simp add: reconcile_sort_key names)
  also have "\<dots> = ?R" using True by simp
  finally show ?thesis by (simp add: R)
next
  case False
  let ?A = "ahead players me"
  let ?B = "take (4 - length ?A) (behind players me)"
  have R: "reconcile players me = ?A @ me # ?B" using False by (simp add: reconcile_shape)
  have names: "others (?A @ me # ?B) me = ?A @ ?B"
    by (simp add: others_def others_names(1) [OF ahead_names'] others_names(1) [OF behind_names])
  have "sorted (map (\<lambda>p. - ppoints p) (?A @ behind players me))"
    by (rule ahead_behind_sorted)
  then have "sorted (map (\<lambda>p. - ppoints p) (?A @ ?B))"
    by (rule sorted_append_take)
  moreover have "\<forall>a\<in>set ?A. - ppoints a \<le> - ppoints me"
    by (auto dest: ahead_behind_points)
  moreover have "\<forall>b\<in>set ?B. - ppoints me < - ppoints b"
    by (auto dest: in_set_takeD ahead_behind_points)
  ultimately have "sort_key (\<lambda>p. - ppoints p) (?A @ ?B @ [me]) = ?A @ me # ?B"
    by (rule sort_key_put_last)
  then have "reconcile (?A @ me # ?B) me = take 5 (?A @ me # ?B)"
    by (simp add: reconcile_sort_key names)
  also have "\<dots> = ?A @ me # ?B" using False by simp
  finally show ?thesis by (simp add: R)
qed

lemma reconcile_own_entries:
  "filter (\<lambda>p. pname p = pname me) (reconcile players me) =
     (if 5 \<le> length (ahead players me) then [] else [me])"
  by (simp add: reconcile_shape others_names(2) [OF ahead_names'] others_names(2) [OF ahead_names]
      others_names(2) [OF behind_names])

lemma reconcile_length: "length (reconcile players me) \<le> 5"
  by (simp add: reconcile_def)

lemma reconcile_sorted: "sorted_wrt (\<lambda>a b. ppoints b \<le> ppoints a) (reconcile players me)"
proof -
  have "sorted (map (\<lambda>p. - ppoints p) (sort_key (\<lambda>p. - ppoints p) (others players me @ [me])))"
    by (rule sorted_sort_key)
  then have "sorted_wrt (\<lambda>a b. ppoints b \<le> ppoints a)
               (sort_key (\<lambda>p. - ppoints p) (others players me @ [me]))"
    by (simp add: sorted_map)
  then show ?thesis
    by (simp only: reconcile_sort_key sorted_wrt_take)
qed

lemma distinct_names_sort:
  "distinct (map pname (sort_key f xs)) = distinct (map pname xs)"
proof -
  have "mset (map pname (sort_key f xs)) = mset (map pname xs)"
    by simp
  then show ?thesis by (rule mset_eq_imp_distinct_iff)
qed

lemma reconcile_distinct:
  assumes "distinct (map pname players)"
  shows "distinct (map pname (reconcile players me))"
proof -
  have "distinct (map pname (others players me))"
    using assms by (simp add: others_def distinct_map_filter)
  moreover have "pname me \<notin> pname ` set (others players me)"
    by (auto simp: others_def)
  ultimately have "distinct (map pname (others players me @ [me]))"
    by simp
  then have "distinct (map pname (sort_key (\<lambda>p. - ppoints p) (others players me @ [me])))"
    by (simp only: distinct_names_sort)
  then have "distinct (take 5 (map pname (sort_key (\<lambda>p. - ppoints p) (others players me @ [me]))))"
    by (rule distinct_take)
  then show ?thesis
    by (simp only: reconcile_sort_key take_map)
qed

lemma reconcile_six:
  assumes six: "length (others players me @ [me]) = 6"
    and pts: "distinct (map ppoints (others players me @ [me]))"
  shows "\<exists>lo\<in>set (others players me @ [me]).
           (\<forall>q\<in>set (others players me @ [me]). ppoints lo \<le> ppoints q)
         \<and> set (reconcile players me) = set (others players me @ [me]) - {lo}"
proof -
  define al where "al = others players me @ [me]"
  define S where "S = sort_key (\<lambda>p. - ppoints p) al"
  define T where "T = take 5 S"
  define x where "x = S ! 5"
  have len: "length S = 6" using six by (simp add: S_def al_def)
  have set_S: "set S = set al" by (simp add: S_def)
  have srt: "sorted (map (\<lambda>p. - ppoints p) S)" unfolding S_def by (rule sorted_sort_key)
  have "mset (map ppoints S) = mset (map ppoints al)" by (simp add: S_def)
  then have "distinct (map ppoints S) = distinct (map ppoints al)"
    by (rule mset_eq_imp_distinct_iff)
  then have "distinct (map ppoints S)" using pts by (simp add: al_def)
  then have dS: "distinct S" by (simp add: distinct_map)
  have "take (Suc 5) S = take 5 S @ [S ! 5]"
    by (rule take_Suc_conv_app_nth) (simp add: len)
  moreover have "take (Suc 5) S = S"
    by (simp add: len)
  ultimately have split: "S = T @ [x]"
    by (simp add: T_def x_def)
  have sets: "set al = insert x (set T)"
    using set_S by (simp add: split)
  then have mem: "x \<in> set al"
    by simp
  have "sorted (map (\<lambda>p. - ppoints p) (T @ [x]))"
    using srt by (simp only: split)
  then have "\<forall>q\<in>set T. ppoints x \<le> ppoints q"
    by (simp add: sorted_append)
  then have low: "\<forall>q\<in>set al. ppoints x \<le> ppoints q"
    by (simp add: sets)
  have "distinct (T @ [x])" using dS by (simp only: split)
  then have "x \<notin> set T" by simp
  moreover note sets
  ultimately have "set T = set al - {x}" by (simp add: sets)
  moreover have "reconcile players me = T"
    by (simp add: reconcile_sort_key T_def S_def al_def)
  ultimately have "set (reconcile players me) = set al - {x}" by simp
  with mem low show ?thesis unfolding al_def by blast
qed

lemma reconcile_reachable: "distinct (map pname (foldl reconcile [] entries))"
proof (induction entries rule: rev_induct)
  case Nil
  show ?case by simp
next
  case (snoc e es)
  then show ?case by (simp add: reconcile_distinct)
qed

lemma reconcile_board5:
  "reconcile board5 entryA =
     [\<lparr>pname = ''B'', ppoints = 80, pstreak = 2, plevel = 1\<rparr>,
      \<lparr>pname = ''C'', ppoints = 70, pstreak = 1, plevel = 1\<rparr>,
      \<lparr>pname = ''D'', ppoints = 60, pstreak = 3, plevel = 1\<rparr>,
      entryA,
      \<lparr>pname = ''E'', ppoints = 40, pstreak = 1, plevel = 1\<rparr>]"
  by (simp add: reconcile_def js_sort_def byPointsDesc_def board5_def entryA_def)

lemma length_ahead_small:
  assumes "length players \<le> 5" and "pname me \<in> pname ` set players"
  shows "length (ahead players me) < 5"
proof -
  from assms(2) obtain p where "p \<in> set players" "\<not> pname p \<noteq> pname me" by auto
  then have "length (filter (\<lambda>p. pname p \<noteq> pname me) players) < length players"
    by (rule length_filter_less)
  then have "length (others players me) < 5" using assms(1) by (simp add: others_def)
  with length_ahead [of players me] show ?thesis by simp
qed

text \<open>
  Claim C5. The reconciled leaderboard is the old list without the entries of the candidate's
  name, with the candidate appended, sorted by points in descending order (a stable sort)
  and cut to its first 5 entries. It has at most 5 entries and is sorted by points in
  descending order; it is unique by name whenever the old list was, and so is every board
  built from an empty one; and of 6 candidates with distinct points exactly the one with the
  fewest points is dropped.
\<close>

theorem reconcile_leaderboard:
  "reconcile players me = take 5 (sort_key (\<lambda>p. - ppoints p) (others players me @ [me]))
   \<and> length (reconcile players me) \<le> 5
   \<and> sorted_wrt (\<lambda>a b. ppoints b \<le> ppoints a) (reconcile players me)
   \<and> (distinct (map pname players) \<longrightarrow> distinct (map pname (reconcile players me)))
   \<and> distinct (map pname (foldl reconcile [] entries))
   \<and> (length (others players me @ [me]) = 6
        \<and> distinct (map ppoints (others players me @ [me])) \<longrightarrow>
       (\<exists>lo\<in>set (others players me @ [me]).
           (\<forall>q\<in>set (others players me @ [me]). ppoints lo \<le> ppoints q)
         \<and> set (reconcile players me) = set (others players me @ [me]) - {lo}))"
  using reconcile_sort_key [of players me] reconcile_length [of players me]
    reconcile_sorted [of players me] reconcile_distinct [of players me]
    reconcile_reachable [of entries] reconcile_six [of players me]
  by blast

theorem reconcile_leaderboard_witness:
  "distinct (map pname board5)
   \<and> length (others board5 entryA @ [entryA]) = 6
   \<and> distinct (map ppoints (others board5 entryA @ [entryA]))
   \<and> length (reconcile board5 entryA) \<le> 5
   \<and> distinct (map pname (reconcile board5 entryA))
   \<and> sorted_wrt (\<lambda>a b. ppoints b \<le> ppoints a) (reconcile board5 entryA)
   \<and> (\<exists>lo\<in>set (others board5 entryA @ [entryA]).
         (\<forall>q\<in>set (others board5 entryA @ [entryA]). ppoints lo \<le> ppoints q)
       \<and> set (reconcile board5 entryA) = set (others board5 entryA @ [entryA]) - {lo})
   \<and> \<lparr>pname = ''F'', ppoints = 30, pstreak = 1, plevel = 1\<rparr> \<notin> set (reconcile board5 entryA)"
proof -
  have a: "distinct (map pname board5)" by (simp add: board5_def)
  have b: "length (others board5 entryA @ [entryA]) = 6"
    by (simp add: others_def board5_def entryA_def)
  have c: "distinct (map ppoints (others board5 entryA @ [entryA]))"
    by (simp add: others_def board5_def entryA_def)
  have d: "\<lparr>pname = ''F'', ppoints = 30, pstreak = 1, plevel = 1\<rparr> \<notin> set (reconcile board5 entryA)"
    unfolding reconcile_board5 by (simp add: entryA_def)
  from reconcile_leaderboard [of board5 entryA "[]"] a b c d show ?thesis by blast
qed

text \<open>
  Claim C6. Reconciling is idempotent: inserting the same entry a second time gives the list
  that inserting it once gave. The list never has two entries of the candidate's name, and a
  board (of at most 5 entries) that already had an entry of that name ends with exactly one,
  the candidate.
\<close>

theorem reconcile_idempotent:
  "reconcile (reconcile players me) me = reconcile players me
   \<and> length (filter (\<lambda>p. pname p = pname me) (reconcile (reconcile players me) me)) \<le> 1
   \<and> (length players \<le> 5 \<and> pname me \<in> pname ` set players \<longrightarrow>
        filter (\<lambda>p. pname p = pname me) (reconcile (reconcile players me) me) = [me])"
proof (intro conjI impI)
  show "reconcile (reconcile players me) me = reconcile players me"
    by (rule reconcile_again)
  show "length (filter (\<lambda>p. pname p = pname me) (reconcile (reconcile players me) me)) \<le> 1"
    by (simp add: reconcile_again reconcile_own_entries)
  assume "length players \<le> 5 \<and> pname me \<in> pname ` set players"
  then have "length (ahead players me) < 5" by (simp add: length_ahead_small)
  then show "filter (\<lambda>p. pname p = pname me) (reconcile (reconcile players me) me) = [me]"
    by (simp add: reconcile_again reconcile_own_entries)
qed

theorem reconcile_idempotent_witness:
  "length boardA \<le> 5 \<and> pname entryA \<in> pname ` set boardA
   \<and> reconcile boardA entryA =
       [\<lparr>pname = ''B'', ppoints = 80, pstreak = 2, plevel = 1\<rparr>, entryA,
        \<lparr>pname = ''C'', ppoints = 20, pstreak = 1, plevel = 1\<rparr>]
   \<and> reconcile (reconcile boardA entryA) entryA = reconcile boardA entryA
   \<and> filter (\<lambda>p. pname p = pname entryA) (reconcile (reconcile boardA entryA) entryA) = [entryA]"
proof -
  have a: "length boardA \<le> 5" by (simp add: boardA_def)
  have b: "pname entryA \<in> pname ` set boardA" by (simp add: boardA_def entryA_def)
  have c: "reconcile boardA entryA =
       [\<lparr>pname = ''B'', ppoints = 80, pstreak = 2, plevel = 1\<rparr>, entryA,
        \<lparr>pname = ''C'', ppoints = 20, pstreak = 1, plevel = 1\<rparr>]"
    by (simp add: reconcile_def js_sort_def byPointsDesc_def boardA_def entryA_def)
  from reconcile_idempotent [of boardA entryA] a b c show ?thesis by blast
qed

end
